theory Spec2Isabelle
  imports Complex_Main "HOL-Library.Multiset" "HOL-Library.Sublist" "HOL-Library.Log_Nat"
begin

section \<open>The label classifier of find\_bad.py\<close>

text \<open>
  The classifier reads one JSON document describing a figure and decides whether the
  figure is a bad label (\<open>True\<close>) or a good one (\<open>False\<close>).

  Modelling decisions.
  \<^item> \<open>json.loads\<close> belongs to the Python library. Its outcome on the input text is
    the input of the model: \<open>None\<close> when it raises \<open>ValueError\<close>, otherwise the parsed
    dictionary. The model covers documents that are objects whose \<open>ImageBB\<close>, when
    present, is a list of numbers, whose \<open>ImageText\<close>, when present, is a list of
    objects, and whose \<open>TextBB\<close> entries, when present, are lists of numbers. Keys may be
    missing and the lists may have any length; values of another JSON type in these
    positions are outside the input type.
  \<^item> A number is what \<open>json.loads\<close> returns for a JSON number: a Python integer
    (unbounded) or a Python float (an IEEE 754 double: a finite value, an infinity or
    NaN). Arithmetic follows Python: integers are exact, an operation on two floats is
    rounded to the nearest double with ties to even, an integer that meets a float is
    converted first and raises \<open>OverflowError\<close> when it is beyond the range of a double,
    and comparisons are exact also between an integer and a float. The sign of a zero
    is not represented: subtraction, addition, multiplication and comparison, the only
    operations of the program, give the same results for both zeros up to that sign.
  \<^item> Exceptions are values: every function that can raise returns \<open>error + 'a\<close>,
    with \<open>Inl\<close> the exception.
  \<^item> \<open>logging.debug\<close> is the only effect of \<open>check\<close>; the logger is an explicit state.
  \<^item> The module \<open>re\<close> belongs to the Python library. The model is a backtracking matcher
    for the constructs that \<open>PATTERN\<close> uses, with the priorities of \<open>re\<close>: greedy
    repetition, leftmost start.
\<close>

subsection \<open>Data\<close>

datatype error = ValueError | KeyError string | IndexError | OverflowError

text \<open>A double: \<open>Fin q\<close> is the finite double of value \<open>q\<close>. The type also has a
  \<open>Fin q\<close> for the rationals \<open>q\<close> that are not the value of a double; every operation rounds
  its result (\<open>round_double\<close>), the statements below hold for all values of the type, and
  the numbers of every concrete record below are doubles.\<close>

datatype double = Fin rat | PInf | MInf | NaN

datatype num = PyInt int | PyFloat double

record text_entry =
  TextBB :: "num list option"

record data =
  ImageBB :: "num list option"
  ImageText :: "text_entry list option"

record logger =
  debug_enabled :: bool
  emitted :: "string list"

text \<open>\<open>logging.debug(msg)\<close>: the message is emitted when the level is DEBUG (the
  \<open>--debug\<close> option), dropped otherwise.\<close>

definition logging_debug :: "string \<Rightarrow> logger \<Rightarrow> logger" where
  "logging_debug msg s = (if debug_enabled s then s\<lparr>emitted := emitted s @ [msg]\<rparr> else s)"

subsection \<open>Python's arithmetic\<close>

text \<open>
  Rounding to the nearest double, ties to even. For \<open>a > 0\<close>, \<open>floor_log2 a\<close> is the
  exponent \<open>e\<close> with \<open>2^e \<le> a < 2^(e+1)\<close>. A double has 53 significant bits and its
  last bit is worth at least \<open>2^(-1074)\<close>, so \<open>a\<close> is rounded to a multiple of \<open>2^u\<close>
  with \<open>u = max (e - 52) (-1074)\<close>; a result of \<open>2^1024\<close> or more is an infinity.
\<close>

definition floor_log2 :: "rat \<Rightarrow> int" where
  "floor_log2 a =
     (case quotient_of a of (p, d) \<Rightarrow>
        (let k = bitlen p - bitlen d in if 2 powi k \<le> a then k else k - 1))"

definition round_half_even :: "rat \<Rightarrow> int" where
  "round_half_even x =
     (let f = \<lfloor>x\<rfloor>; r = x - of_int f
      in if r < 1/2 then f else if 1/2 < r then f + 1 else if even f then f else f + 1)"

definition round_double :: "rat \<Rightarrow> double" where
  "round_double q =
     (if q = 0 then Fin 0
      else
        (let a = \<bar>q\<bar>;
             u = max (floor_log2 a - 52) (- 1074);
             v = of_int (round_half_even (a / 2 powi u)) * 2 powi u
         in if 2 powi 1024 \<le> v then (if 0 < q then PInf else MInf)
            else Fin (if 0 < q then v else - v)))"

text \<open>The sum and the product of two doubles. \<open>inf - inf\<close> and \<open>inf * 0\<close> are NaN.\<close>

fun fneg :: "double \<Rightarrow> double" where
  "fneg (Fin a) = Fin (- a)"
| "fneg PInf = MInf"
| "fneg MInf = PInf"
| "fneg NaN = NaN"

fun fadd :: "double \<Rightarrow> double \<Rightarrow> double" where
  "fadd (Fin a) (Fin b) = round_double (a + b)"
| "fadd NaN y = NaN"
| "fadd x NaN = NaN"
| "fadd PInf MInf = NaN"
| "fadd MInf PInf = NaN"
| "fadd PInf y = PInf"
| "fadd MInf y = MInf"
| "fadd x PInf = PInf"
| "fadd x MInf = MInf"

definition fsub :: "double \<Rightarrow> double \<Rightarrow> double" where
  "fsub x y = fadd x (fneg y)"

fun fsign :: "double \<Rightarrow> int" where
  "fsign (Fin a) = (if a = 0 then 0 else if 0 < a then 1 else - 1)"
| "fsign PInf = 1"
| "fsign MInf = - 1"
| "fsign NaN = 0"

fun fmul :: "double \<Rightarrow> double \<Rightarrow> double" where
  "fmul (Fin a) (Fin b) = round_double (a * b)"
| "fmul NaN y = NaN"
| "fmul x NaN = NaN"
| "fmul x y =
     (if fsign x * fsign y = 0 then NaN else if 0 < fsign x * fsign y then PInf else MInf)"

text \<open>\<open>x < y\<close> on doubles: false when either is NaN.\<close>

fun fless :: "double \<Rightarrow> double \<Rightarrow> bool" where
  "fless (Fin a) (Fin b) = (a < b)"
| "fless NaN y = False"
| "fless x NaN = False"
| "fless x MInf = False"
| "fless PInf y = False"
| "fless MInf y = True"
| "fless x PInf = True"

text \<open>The conversion of an integer to a float, as an arithmetic operation on an integer
  and a float does it.\<close>

definition to_float :: "int \<Rightarrow> error + double" where
  "to_float i = (case round_double (of_int i) of Fin v \<Rightarrow> Inr (Fin v) | _ \<Rightarrow> Inl OverflowError)"

definition as_float :: "num \<Rightarrow> error + double" where
  "as_float x = (case x of PyInt i \<Rightarrow> to_float i | PyFloat d \<Rightarrow> Inr d)"

text \<open>\<open>x + y\<close>, \<open>x - y\<close> and \<open>x * y\<close>: exact on two integers, otherwise on the two
  floats after conversion.\<close>

definition float_op ::
  "(double \<Rightarrow> double \<Rightarrow> double) \<Rightarrow> num \<Rightarrow> num \<Rightarrow> error + num" where
  "float_op f x y =
     (case as_float x of Inl e \<Rightarrow> Inl e | Inr a \<Rightarrow>
       (case as_float y of Inl e \<Rightarrow> Inl e | Inr b \<Rightarrow> Inr (PyFloat (f a b))))"

fun py_add :: "num \<Rightarrow> num \<Rightarrow> error + num" where
  "py_add (PyInt a) (PyInt b) = Inr (PyInt (a + b))"
| "py_add x y = float_op fadd x y"

fun py_sub :: "num \<Rightarrow> num \<Rightarrow> error + num" where
  "py_sub (PyInt a) (PyInt b) = Inr (PyInt (a - b))"
| "py_sub x y = float_op fsub x y"

fun py_mul :: "num \<Rightarrow> num \<Rightarrow> error + num" where
  "py_mul (PyInt a) (PyInt b) = Inr (PyInt (a * b))"
| "py_mul x y = float_op fmul x y"

text \<open>\<open>x < y\<close> and \<open>x > y\<close>: Python compares an integer with a float by value, without
  converting the integer.\<close>

definition exact :: "num \<Rightarrow> double" where
  "exact x = (case x of PyInt i \<Rightarrow> Fin (of_int i) | PyFloat d \<Rightarrow> d)"

definition py_lt :: "num \<Rightarrow> num \<Rightarrow> bool" where
  "py_lt x y = fless (exact x) (exact y)"

definition py_gt :: "num \<Rightarrow> num \<Rightarrow> bool" where
  "py_gt x y = fless (exact y) (exact x)"

text \<open>The literals \<open>0.05\<close> and \<open>0.5\<close>: the doubles nearest to the decimal values.\<close>

definition float_0_05 :: num where
  "float_0_05 = PyFloat (round_double (5 / 100))"

definition float_0_5 :: num where
  "float_0_5 = PyFloat (round_double (5 / 10))"

subsection \<open>Geometric primitives\<close>

text \<open>\<open>a[i]\<close> for a constant index \<open>i \<ge> 0\<close>: \<open>IndexError\<close> beyond the end of the list.\<close>

definition getitem :: "num list \<Rightarrow> nat \<Rightarrow> error + num" where
  "getitem a i = (if i < length a then Inr (a ! i) else Inl IndexError)"

text \<open>\<open>a[i] > b[i]\<close> and \<open>a[i] < b[i]\<close>: both subscripts are evaluated, then compared.\<close>

definition item_gt :: "num list \<Rightarrow> num list \<Rightarrow> nat \<Rightarrow> error + bool" where
  "item_gt a b i =
     (case getitem a i of Inl e \<Rightarrow> Inl e | Inr x \<Rightarrow>
       (case getitem b i of Inl e \<Rightarrow> Inl e | Inr y \<Rightarrow> Inr (py_gt x y)))"

definition item_lt :: "num list \<Rightarrow> num list \<Rightarrow> nat \<Rightarrow> error + bool" where
  "item_lt a b i =
     (case getitem a i of Inl e \<Rightarrow> Inl e | Inr x \<Rightarrow>
       (case getitem b i of Inl e \<Rightarrow> Inl e | Inr y \<Rightarrow> Inr (py_lt x y)))"

text \<open>Python's \<open>p and q\<close>: \<open>q\<close> is evaluated only when \<open>p\<close> is true.\<close>

definition py_and :: "error + bool \<Rightarrow> error + bool \<Rightarrow> error + bool" where
  "py_and p q = (case p of Inl e \<Rightarrow> Inl e | Inr v \<Rightarrow> if v then q else Inr False)"

text \<open>
  \<^verbatim>\<open>
  def contains(a, b):
      return (a[0] > b[0] and a[2] < b[2] and
              a[1] > b[1] and a[3] < b[3])
  \<close>
\<close>

definition contains :: "num list \<Rightarrow> num list \<Rightarrow> error + bool" where
  "contains a b =
     py_and (item_gt a b 0) (py_and (item_lt a b 2) (py_and (item_gt a b 1) (item_lt a b 3)))"

text \<open>
  \<^verbatim>\<open>
  def area(a):
      return (a[2] - a[0]) * (a[3] - a[1])
  \<close>
  The left factor is evaluated before the right one.
\<close>

definition item_diff :: "num list \<Rightarrow> nat \<Rightarrow> nat \<Rightarrow> error + num" where
  "item_diff a i j =
     (case getitem a i of Inl e \<Rightarrow> Inl e | Inr x \<Rightarrow>
       (case getitem a j of Inl e \<Rightarrow> Inl e | Inr y \<Rightarrow> py_sub x y))"

definition area :: "num list \<Rightarrow> error + num" where
  "area a =
     (case item_diff a 2 0 of Inl e \<Rightarrow> Inl e | Inr w \<Rightarrow>
       (case item_diff a 3 1 of Inl e \<Rightarrow> Inl e | Inr h \<Rightarrow> py_mul w h))"

subsection \<open>The border rule\<close>

text \<open>
  The two shrunk regions:
  \<^verbatim>\<open>
      h = y1 - y0
      not_top_border = [x0, y0 + h*0.05,
                        x1, y1]
      not_bottom_border = [x0, y0,
                           x1, y1 - h*0.05]
  \<close>
\<close>

definition border_regions :: "num \<Rightarrow> num \<Rightarrow> num \<Rightarrow> num \<Rightarrow> error + num list \<times> num list" where
  "border_regions x0 y0 x1 y1 =
     (case py_sub y1 y0 of Inl e \<Rightarrow> Inl e | Inr h \<Rightarrow>
       (case py_mul h float_0_05 of Inl e \<Rightarrow> Inl e | Inr d \<Rightarrow>
         (case py_add y0 d of Inl e \<Rightarrow> Inl e | Inr top_edge \<Rightarrow>
           (case py_sub y1 d of Inl e \<Rightarrow> Inl e | Inr bottom_edge \<Rightarrow>
              Inr ([x0, top_edge, x1, y1], [x0, y0, x1, bottom_edge])))))"

text \<open>
  The loop of \<open>all_in_border\<close>, with the two flags \<open>top\<close> and \<open>bottom\<close> as the arguments
  \<open>top_flag\<close> and \<open>bottom_flag\<close>:
  \<^verbatim>\<open>
    for text in texts:
        if contains(text['TextBB'], not_top_border):
            top = True
        if contains(text['TextBB'], not_bottom_border):
            bottom = True
        if top and bottom:
            return False
    return True
  \<close>
  \<open>text['TextBB']\<close> raises \<open>KeyError\<close> when the key is missing.
\<close>

fun all_in_border_loop ::
  "num list \<Rightarrow> num list \<Rightarrow> bool \<Rightarrow> bool \<Rightarrow> text_entry list \<Rightarrow> error + bool" where
  "all_in_border_loop not_top_border not_bottom_border top_flag bottom_flag [] = Inr True"
| "all_in_border_loop not_top_border not_bottom_border top_flag bottom_flag (text # texts) =
     (case TextBB text of None \<Rightarrow> Inl (KeyError ''TextBB'') | Some bb \<Rightarrow>
       (case contains bb not_top_border of Inl e \<Rightarrow> Inl e | Inr in_top \<Rightarrow>
         (case contains bb not_bottom_border of Inl e \<Rightarrow> Inl e | Inr in_bottom \<Rightarrow>
           (let top_flag' = (if in_top then True else top_flag);
                bottom_flag' = (if in_bottom then True else bottom_flag)
            in if top_flag' \<and> bottom_flag' then Inr False
               else all_in_border_loop not_top_border not_bottom_border
                      top_flag' bottom_flag' texts))))"

text \<open>
  \<^verbatim>\<open>
  def all_in_border(bounds, texts):
      x0, y0, x1, y1 = bounds
      ...
      top = False
      bottom = False
      ...
  \<close>
  Unpacking a list that has not exactly four elements raises \<open>ValueError\<close>.
\<close>

definition all_in_border :: "num list \<Rightarrow> text_entry list \<Rightarrow> error + bool" where
  "all_in_border bounds texts =
     (case bounds of
        [x0, y0, x1, y1] \<Rightarrow>
          (case border_regions x0 y0 x1 y1 of Inl e \<Rightarrow> Inl e
           | Inr (not_top_border, not_bottom_border) \<Rightarrow>
               all_in_border_loop not_top_border not_bottom_border False False texts)
      | _ \<Rightarrow> Inl ValueError)"

subsection \<open>The area rule\<close>

text \<open>
  \<^verbatim>\<open>
  def is_sum_larger(max_area, texts):
      sum_so_far = 0
      for text in texts:
          sum_so_far += area(text['TextBB'])
          if sum_so_far > max_area:
              return True
      return False
  \<close>
\<close>

fun is_sum_larger_loop :: "num \<Rightarrow> num \<Rightarrow> text_entry list \<Rightarrow> error + bool" where
  "is_sum_larger_loop max_area sum_so_far [] = Inr False"
| "is_sum_larger_loop max_area sum_so_far (text # texts) =
     (case TextBB text of None \<Rightarrow> Inl (KeyError ''TextBB'') | Some bb \<Rightarrow>
       (case area bb of Inl e \<Rightarrow> Inl e | Inr ar \<Rightarrow>
         (case py_add sum_so_far ar of Inl e \<Rightarrow> Inl e | Inr sum_so_far' \<Rightarrow>
            if py_gt sum_so_far' max_area then Inr True
            else is_sum_larger_loop max_area sum_so_far' texts)))"

definition is_sum_larger :: "num \<Rightarrow> text_entry list \<Rightarrow> error + bool" where
  "is_sum_larger max_area texts = is_sum_larger_loop max_area (PyInt 0) texts"

subsection \<open>The classifier\<close>

text \<open>
  \<^verbatim>\<open>
  def check(json_data):
      data = json.loads(json_data)
      texts = data['ImageText']
      if len(texts) == 0:
          logging.debug("No text")
          return True
      if len(texts) == 1:
          logging.debug("One text label")
          return True
      if all_in_border(data['ImageBB'], texts):
          logging.debug("All text is in upper or lower border")
          return True
      a = area(data['ImageBB'])
      if is_sum_larger(a*0.5, texts):
          logging.debug("Almost everything is text")
          return True
      return False
  \<close>
  The first argument is the outcome of \<open>json.loads(json_data)\<close>. An exception leaves the
  logger as it was.
\<close>

definition check :: "data option \<Rightarrow> logger \<Rightarrow> (error + bool) \<times> logger" where
  "check loaded s =
     (case loaded of None \<Rightarrow> (Inl ValueError, s) | Some data \<Rightarrow>
       (case ImageText data of None \<Rightarrow> (Inl (KeyError ''ImageText''), s) | Some texts \<Rightarrow>
         (if length texts = 0 then (Inr True, logging_debug ''No text'' s)
          else if length texts = 1 then (Inr True, logging_debug ''One text label'' s)
          else
            (case ImageBB data of None \<Rightarrow> (Inl (KeyError ''ImageBB''), s) | Some bounds \<Rightarrow>
              (case all_in_border bounds texts of Inl e \<Rightarrow> (Inl e, s) | Inr in_border \<Rightarrow>
                (if in_border
                 then (Inr True, logging_debug ''All text is in upper or lower border'' s)
                 else
                   (case area bounds of Inl e \<Rightarrow> (Inl e, s) | Inr a \<Rightarrow>
                     (case py_mul a float_0_5 of Inl e \<Rightarrow> (Inl e, s) | Inr max_area \<Rightarrow>
                       (case is_sum_larger max_area texts of Inl e \<Rightarrow> (Inl e, s)
                        | Inr larger \<Rightarrow>
                           (if larger
                            then (Inr True, logging_debug ''Almost everything is text'' s)
                            else (Inr False, s)))))))))))"

subsection \<open>Identifier extraction\<close>

text \<open>
  \<^verbatim>\<open>PATTERN = re.compile('(.*-Figure-[0-9]+).*\.json')\<close>

  A pattern is a sequence of items: one character of a class, a greedy \<open>*\<close> or \<open>+\<close> over
  a class, and the two ends of the capture group. The classes are a literal character,
  \<open>.\<close> (any character but the newline) and a range \<open>[lo-hi]\<close>.
\<close>

datatype atom = Lit char | Dot | Range char char

datatype item = One atom | Star atom | Plus atom | Open | Close










subsection \<open>Vocabulary of the statements\<close>

text \<open>
  A box is a quadruple \<open>(x0, y0, x1, y1)\<close> of numbers. \<open>box_text\<close> is the text entry of
  a well-formed record: a dictionary whose \<open>TextBB\<close> is the four-element list of the
  box. \<open>strictly_inside a b\<close> says that the box \<open>a\<close> is strictly inside the region \<open>b\<close>
  (a four-element list, as \<open>border_regions\<close> returns it) on all four edges.
\<close>

definition box_text :: "num \<times> num \<times> num \<times> num \<Rightarrow> text_entry" where
  "box_text q = (case q of (x0, y0, x1, y1) \<Rightarrow> \<lparr>TextBB = Some [x0, y0, x1, y1]\<rparr>)"

definition strictly_inside :: "num \<times> num \<times> num \<times> num \<Rightarrow> num list \<Rightarrow> bool" where
  "strictly_inside a b =
     (case a of (ax0, ay0, ax1, ay1) \<Rightarrow>
       (case b of
          [bx0, by0, bx1, by1] \<Rightarrow>
            py_gt ax0 bx0 \<and> py_lt ax1 bx1 \<and> py_gt ay0 by0 \<and> py_lt ay1 by1
        | _ \<Rightarrow> False))"

text \<open>
  The area of a box, \<open>(x1 - x0) * (y1 - y0)\<close> in Python's arithmetic; the running sum
  of the areas of a list of boxes, from a start value, in the order of the list; and
  \<open>area(ImageBB) * 0.5\<close>. Each is an error when an operation raises.
\<close>

definition box_area :: "num \<times> num \<times> num \<times> num \<Rightarrow> error + num" where
  "box_area a =
     (case a of (x0, y0, x1, y1) \<Rightarrow>
       (case py_sub x1 x0 of Inl e \<Rightarrow> Inl e | Inr w \<Rightarrow>
         (case py_sub y1 y0 of Inl e \<Rightarrow> Inl e | Inr h \<Rightarrow> py_mul w h)))"

fun running_sum :: "num \<Rightarrow> (num \<times> num \<times> num \<times> num) list \<Rightarrow> error + num" where
  "running_sum acc [] = Inr acc"
| "running_sum acc (q # qs) =
     (case box_area q of Inl e \<Rightarrow> Inl e | Inr ar \<Rightarrow>
       (case py_add acc ar of Inl e \<Rightarrow> Inl e | Inr acc' \<Rightarrow> running_sum acc' qs))"

definition half_area :: "num \<times> num \<times> num \<times> num \<Rightarrow> error + num" where
  "half_area b = (case box_area b of Inl e \<Rightarrow> Inl e | Inr a \<Rightarrow> py_mul a float_0_5)"

text \<open>A box with integer coordinates, and its area.\<close>

definition int_box :: "int \<times> int \<times> int \<times> int \<Rightarrow> num \<times> num \<times> num \<times> num" where
  "int_box q = (case q of (x0, y0, x1, y1) \<Rightarrow> (PyInt x0, PyInt y0, PyInt x1, PyInt y1))"

definition int_area :: "int \<times> int \<times> int \<times> int \<Rightarrow> int" where
  "int_area q = (case q of (x0, y0, x1, y1) \<Rightarrow> (x1 - x0) * (y1 - y0))"

text \<open>
  The geometry of the specification, in exact arithmetic on the values of the numbers:
  the value of a finite number, the box of values, strict containment, the two shrunk
  regions with their border at exactly 5 percent of the height, the strip between the
  upper edge and that border, and the area.
\<close>

definition value_of :: "num \<Rightarrow> rat option" where
  "value_of x =
     (case x of PyInt i \<Rightarrow> Some (of_int i)
      | PyFloat d \<Rightarrow> (case d of Fin q \<Rightarrow> Some q | _ \<Rightarrow> None))"

definition values_of :: "num \<times> num \<times> num \<times> num \<Rightarrow> (rat \<times> rat \<times> rat \<times> rat) option" where
  "values_of a =
     (case a of (x0, y0, x1, y1) \<Rightarrow>
       (case (value_of x0, value_of y0, value_of x1, value_of y1) of
          (Some u0, Some v0, Some u1, Some v1) \<Rightarrow> Some (u0, v0, u1, v1)
        | _ \<Rightarrow> None))"

definition exactly_inside :: "rat \<times> rat \<times> rat \<times> rat \<Rightarrow> rat \<times> rat \<times> rat \<times> rat \<Rightarrow> bool" where
  "exactly_inside a b =
     (case a of (ax0, ay0, ax1, ay1) \<Rightarrow>
       (case b of (bx0, by0, bx1, by1) \<Rightarrow> ax0 > bx0 \<and> ax1 < bx1 \<and> ay0 > by0 \<and> ay1 < by1))"

definition exact_not_top :: "rat \<times> rat \<times> rat \<times> rat \<Rightarrow> rat \<times> rat \<times> rat \<times> rat" where
  "exact_not_top b = (case b of (x0, y0, x1, y1) \<Rightarrow> (x0, y0 + (y1 - y0) * (5 / 100), x1, y1))"

definition exact_not_bottom :: "rat \<times> rat \<times> rat \<times> rat \<Rightarrow> rat \<times> rat \<times> rat \<times> rat" where
  "exact_not_bottom b = (case b of (x0, y0, x1, y1) \<Rightarrow> (x0, y0, x1, y1 - (y1 - y0) * (5 / 100)))"

definition in_top_strip :: "rat \<times> rat \<times> rat \<times> rat \<Rightarrow> rat \<times> rat \<times> rat \<times> rat \<Rightarrow> bool" where
  "in_top_strip a b =
     (case a of (ax0, ay0, ax1, ay1) \<Rightarrow>
       (case b of (x0, y0, x1, y1) \<Rightarrow>
          x0 \<le> ax0 \<and> ax0 \<le> ax1 \<and> ax1 \<le> x1 \<and>
          y0 \<le> ay0 \<and> ay0 \<le> ay1 \<and> ay1 \<le> y0 + (y1 - y0) * (5 / 100)))"

definition exact_area :: "rat \<times> rat \<times> rat \<times> rat \<Rightarrow> rat" where
  "exact_area a = (case a of (x0, y0, x1, y1) \<Rightarrow> (x1 - x0) * (y1 - y0))"





section \<open>Properties\<close>

subsection \<open>Evaluation of the arithmetic\<close>

lemma bitlen_powi_bounds:
  assumes "0 < (p::int)"
  shows "2 powi (bitlen p - 1) \<le> (of_int p :: rat)" "(of_int p :: rat) < 2 powi (bitlen p)"
proof -
  from bitlen_bounds [OF assms] have b: "2 ^ nat (bitlen p - 1) \<le> p" "p < 2 ^ nat (bitlen p)"
    by simp_all
  have pos: "1 \<le> bitlen p" using assms by (auto simp add: bitlen_alt_def)
  from b(1) have "(of_int (2 ^ nat (bitlen p - 1)) :: rat) \<le> of_int p" by (simp only: of_int_le_iff)
  then show "2 powi (bitlen p - 1) \<le> (of_int p :: rat)"
    using pos by (simp add: power_int_def)
  from b(2) have "(of_int p :: rat) < of_int (2 ^ nat (bitlen p))" by (simp only: of_int_less_iff)
  then show "(of_int p :: rat) < 2 powi (bitlen p)"
    using pos by (simp add: power_int_def)
qed

lemma powi2_unique:
  assumes "2 powi e \<le> (a::rat)" "a < 2 powi (e + 1)" "2 powi k \<le> a" "a < 2 powi (k + 1)"
  shows "k = e"
proof -
  have less: "i < j" if "(2::rat) powi i < 2 powi j" for i j :: int
  proof (rule ccontr)
    assume "\<not> i < j"
    then have "(2::rat) powi j \<le> 2 powi i" by (intro power_int_increasing) simp_all
    with that show False by simp
  qed
  from assms(1,4) have "(2::rat) powi e < 2 powi (k + 1)" by simp
  then have "e < k + 1" by (rule less)
  moreover from assms(3,2) have "(2::rat) powi k < 2 powi (e + 1)" by simp
  then have "k < e + 1" by (rule less)
  ultimately show ?thesis by simp
qed

lemma powi2_pos: "(0::rat) < 2 powi e"
  by (simp add: zero_less_power_int)

lemma floor_log2_eq:
  assumes "2 powi e \<le> a" "a < 2 powi (e + 1)"
  shows "floor_log2 a = e"
proof -
  have apos: "0 < a" by (rule order_less_le_trans [OF powi2_pos assms(1)])
  obtain p d where pd: "quotient_of a = (p, d)" by (cases "quotient_of a")
  then have d: "0 < d" and a: "a = of_int p / of_int d"
    by (auto simp add: quotient_of_denom_pos quotient_of_div)
  with apos have p: "0 < p" by (simp add: zero_less_divide_iff)
  define k where "k = bitlen p - bitlen d"
  note bp = bitlen_powi_bounds [OF p] and bd = bitlen_powi_bounds [OF d]
  have dpos: "(0::rat) < of_int d" using d by simp
  have up: "a < 2 powi (k + 1)"
  proof -
    have "of_int p < (2::rat) powi (bitlen p)" by (rule bp(2))
    also have "\<dots> = 2 powi (k + 1) * 2 powi (bitlen d - 1)"
      by (simp add: k_def power_int_add [symmetric])
    also have "\<dots> \<le> 2 powi (k + 1) * of_int d"
      using bd(1) by (intro mult_left_mono) simp_all
    finally show ?thesis using dpos by (simp add: a pos_divide_less_eq)
  qed
  have low: "2 powi (k - 1) < a"
  proof -
    have "2 powi (k - 1) * of_int d < (2::rat) powi (k - 1) * 2 powi (bitlen d)"
      using bd(2) by (intro mult_strict_left_mono) simp_all
    also have "\<dots> = 2 powi (bitlen p - 1)"
      by (simp add: k_def power_int_add [symmetric])
    also have "\<dots> \<le> of_int p" by (rule bp(1))
    finally show ?thesis using dpos by (simp add: a pos_less_divide_eq)
  qed
  show ?thesis
  proof (cases "2 powi k \<le> a")
    case True
    from powi2_unique [OF assms True up] have "k = e" .
    with True show ?thesis by (simp add: floor_log2_def pd k_def [symmetric])
  next
    case False
    then have "a < 2 powi (k - 1 + 1)" by simp
    from powi2_unique [OF assms less_imp_le [OF low] this] have "k - 1 = e" .
    with False show ?thesis by (simp add: floor_log2_def pd k_def [symmetric])
  qed
qed

text \<open>Rounding a number whose exponent \<open>e\<close> is known.\<close>

lemma round_double_eval:
  assumes "2 powi e \<le> \<bar>q\<bar>" "\<bar>q\<bar> < 2 powi (e + 1)"
  shows "round_double q =
     (let u = max (e - 52) (- 1074);
          v = of_int (round_half_even (\<bar>q\<bar> / 2 powi u)) * 2 powi u
      in if 2 powi 1024 \<le> v then (if 0 < q then PInf else MInf)
         else Fin (if 0 < q then v else - v))"
proof -
  have "0 < \<bar>q\<bar>" by (rule order_less_le_trans [OF powi2_pos assms(1)])
  then have "q \<noteq> 0" by simp
  then show ?thesis
    unfolding round_double_def Let_def by (simp only: floor_log2_eq [OF assms] if_False)
qed

lemma floor_rat_numeral:
  "\<lfloor>numeral a / numeral b :: rat\<rfloor> = numeral a div numeral b"
  by (metis floor_divide_of_int_eq of_int_numeral)

lemma round_double_0: "round_double 0 = Fin 0"
  by (simp add: round_double_def)

lemmas round_eval =
  round_half_even_def Let_def floor_rat_numeral round_double_0
  round_double_eval [where e = "- 5"] round_double_eval [where e = "- 3"]
  round_double_eval [where e = "- 1"] round_double_eval [where e = 0]
  round_double_eval [where e = 1] round_double_eval [where e = 2]
  round_double_eval [where e = 5] round_double_eval [where e = 6]
  round_double_eval [where e = 12] round_double_eval [where e = 13]
  round_double_eval [where e = 54] round_double_eval [where e = 55]

lemmas py_eval =
  float_op_def as_float_def to_float_def fsub_def float_0_05_def float_0_5_def
  py_gt_def py_lt_def exact_def

lemma float_0_05_value: "float_0_05 = PyFloat (Fin (3602879701896397 / 72057594037927936))"
  by (simp add: float_0_05_def round_eval)

lemma float_0_5_value: "float_0_5 = PyFloat (Fin (1 / 2))"
  by (simp add: float_0_5_def round_eval)

lemma fless_irrefl: "\<not> fless x x"
  by (cases x) simp_all

lemma py_gt_irrefl: "\<not> py_gt x x"
  by (simp add: py_gt_def fless_irrefl)

lemma py_lt_irrefl: "\<not> py_lt x x"
  by (simp add: py_lt_def fless_irrefl)

lemma py_gt_int_mono: "py_gt (PyInt a) t \<Longrightarrow> a \<le> b \<Longrightarrow> py_gt (PyInt b) t"
proof -
  assume a: "py_gt (PyInt a) t" and le: "a \<le> b"
  from le have le': "(of_int a :: rat) \<le> of_int b" by simp
  have "fless d (Fin (of_int b))" if "fless d (Fin (of_int a))" for d
    using that le' by (cases d) simp_all
  with a show ?thesis by (simp add: py_gt_def exact_def)
qed

subsection \<open>Evaluation of the primitives on four-element boxes\<close>

lemma contains_box:
  "contains [a0, a1, a2, a3] [b0, b1, b2, b3] =
     Inr (py_gt a0 b0 \<and> py_lt a2 b2 \<and> py_gt a1 b1 \<and> py_lt a3 b3)"
  by (simp add: contains_def py_and_def item_gt_def item_lt_def getitem_def)

lemma area_box: "area [a0, a1, a2, a3] = box_area (a0, a1, a2, a3)"
  by (simp add: area_def item_diff_def getitem_def box_area_def split: sum.splits)

lemma TextBB_box_text: "TextBB (box_text (a0, a1, a2, a3)) = Some [a0, a1, a2, a3]"
  by (simp add: box_text_def)

lemma contains_box_text:
  "contains [a0, a1, a2, a3] [b0, b1, b2, b3] = Inr (strictly_inside (a0, a1, a2, a3) [b0, b1, b2, b3])"
  by (simp add: contains_box strictly_inside_def)

lemma all_in_border_loop_boxes:
  "\<not> (t \<and> b) \<Longrightarrow>
   all_in_border_loop [n0, n1, n2, n3] [m0, m1, m2, m3] t b (map box_text qs) =
     Inr (\<not> ((t \<or> (\<exists>q\<in>set qs. strictly_inside q [n0, n1, n2, n3]))
            \<and> (b \<or> (\<exists>q\<in>set qs. strictly_inside q [m0, m1, m2, m3]))))"
proof (induction qs arbitrary: t b)
  case Nil
  then show ?case by simp
next
  case (Cons q qs)
  obtain a0 a1 a2 a3 where q: "q = (a0, a1, a2, a3)" by (cases q) auto
  show ?case
    using Cons.prems Cons.IH
    by (auto simp add: q TextBB_box_text contains_box_text Let_def)
qed

lemma border_regions_shape:
  assumes "border_regions x0 y0 x1 y1 = Inr (ntb, nbb)"
  shows "\<exists>te be. ntb = [x0, te, x1, y1] \<and> nbb = [x0, y0, x1, be]"
  using assms by (auto simp add: border_regions_def split: sum.splits)

lemma all_in_border_boxes:
  "all_in_border [x0, y0, x1, y1] (map box_text qs) =
     (case border_regions x0 y0 x1 y1 of Inl e \<Rightarrow> Inl e
      | Inr (ntb, nbb) \<Rightarrow>
          Inr (\<not> ((\<exists>q\<in>set qs. strictly_inside q ntb) \<and> (\<exists>q\<in>set qs. strictly_inside q nbb))))"
proof (cases "border_regions x0 y0 x1 y1")
  case (Inl e)
  then show ?thesis by (simp add: all_in_border_def)
next
  case (Inr r)
  obtain ntb nbb where r: "r = (ntb, nbb)" by (cases r)
  from border_regions_shape [OF Inr [unfolded r]] obtain te be where
    s: "ntb = [x0, te, x1, y1]" "nbb = [x0, y0, x1, be]" by blast
  show ?thesis
    by (simp add: all_in_border_def Inr r s all_in_border_loop_boxes)
qed

lemma ex_Suc_interval:
  "(\<exists>k\<in>{1..Suc n}. P k) = (P 1 \<or> (\<exists>k\<in>{1..n}. P (Suc k)))"
proof
  assume "\<exists>k\<in>{1..Suc n}. P k"
  then obtain k where k: "1 \<le> k" "k \<le> Suc n" "P k" by auto
  show "P 1 \<or> (\<exists>k\<in>{1..n}. P (Suc k))"
  proof (cases "k = 1")
    case True
    with k show ?thesis by simp
  next
    case False
    with k obtain j where "k = Suc j" "1 \<le> j" "j \<le> n" by (cases k) auto
    with k show ?thesis by auto
  qed
next
  assume "P 1 \<or> (\<exists>k\<in>{1..n}. P (Suc k))"
  then show "\<exists>k\<in>{1..Suc n}. P k" by auto
qed

lemma is_sum_larger_loop_boxes:
  "is_sum_larger_loop t acc (map box_text qs) =
     (if (\<exists>k\<in>{1..length qs}. \<exists>v. running_sum acc (take k qs) = Inr v \<and> py_gt v t)
      then Inr True
      else (case running_sum acc qs of Inl e \<Rightarrow> Inl e | Inr v \<Rightarrow> Inr False))"
proof (induction qs arbitrary: acc)
  case Nil
  then show ?case by simp
next
  case (Cons q qs)
  obtain a0 a1 a2 a3 where q: "q = (a0, a1, a2, a3)" by (cases q) auto
  let ?P = "\<lambda>k. \<exists>v. running_sum acc (take k (q # qs)) = Inr v \<and> py_gt v t"
  have ex: "(\<exists>k\<in>{1..length (q # qs)}. ?P k) = (?P 1 \<or> (\<exists>k\<in>{1..length qs}. ?P (Suc k)))"
    using ex_Suc_interval [of "length qs" ?P] by simp
  show ?case
  proof (cases "box_area q")
    case (Inl e)
    then show ?thesis unfolding ex by (simp add: q TextBB_box_text area_box)
  next
    case ar: (Inr ar)
    show ?thesis
    proof (cases "py_add acc ar")
      case (Inl e)
      with ar show ?thesis unfolding ex by (simp add: q TextBB_box_text area_box)
    next
      case (Inr acc')
      with ar show ?thesis
        unfolding ex by (auto simp add: q TextBB_box_text area_box Cons.IH)
    qed
  qed
qed

subsection \<open>The classifier on well-formed records\<close>

lemma check_many_boxes:
  assumes "2 \<le> length qs"
  shows "fst (check (Some \<lparr>ImageBB = Some [x0, y0, x1, y1],
                           ImageText = Some (map box_text qs)\<rparr>) s) =
     (case border_regions x0 y0 x1 y1 of Inl e \<Rightarrow> Inl e
      | Inr (ntb, nbb) \<Rightarrow>
         (if \<not> ((\<exists>q\<in>set qs. strictly_inside q ntb) \<and> (\<exists>q\<in>set qs. strictly_inside q nbb))
          then Inr True
          else
            (case half_area (x0, y0, x1, y1) of Inl e \<Rightarrow> Inl e
             | Inr t \<Rightarrow>
                (if (\<exists>k\<in>{1..length qs}. \<exists>v.
                       running_sum (PyInt 0) (take k qs) = Inr v \<and> py_gt v t)
                 then Inr True
                 else (case running_sum (PyInt 0) qs of Inl e \<Rightarrow> Inl e
                       | Inr v \<Rightarrow> Inr False)))))"
proof -
  from assms have len: "length qs \<noteq> 0" "length qs \<noteq> 1" by auto
  have half: "half_area (x0, y0, x1, y1) =
      (case area [x0, y0, x1, y1] of Inl e \<Rightarrow> Inl e | Inr a \<Rightarrow> py_mul a float_0_5)"
    by (simp add: half_area_def area_box)
  have chk: "fst (check (Some \<lparr>ImageBB = Some [x0, y0, x1, y1],
                                ImageText = Some (map box_text qs)\<rparr>) s) =
      (case all_in_border [x0, y0, x1, y1] (map box_text qs) of Inl e \<Rightarrow> Inl e
       | Inr in_border \<Rightarrow>
          (if in_border then Inr True
           else
             (case area [x0, y0, x1, y1] of Inl e \<Rightarrow> Inl e
              | Inr a \<Rightarrow>
                 (case py_mul a float_0_5 of Inl e \<Rightarrow> Inl e
                  | Inr t \<Rightarrow> is_sum_larger t (map box_text qs)))))"
    using len by (simp add: check_def split: sum.splits)
  show ?thesis
  proof (cases "border_regions x0 y0 x1 y1")
    case (Inl e)
    then show ?thesis unfolding chk by (simp add: all_in_border_boxes)
  next
    case (Inr r)
    obtain ntb nbb where r: "r = (ntb, nbb)" by (cases r)
    let ?B = "\<not> ((\<exists>q\<in>set qs. strictly_inside q ntb) \<and> (\<exists>q\<in>set qs. strictly_inside q nbb))"
    have border: "all_in_border [x0, y0, x1, y1] (map box_text qs) = Inr ?B"
      by (simp add: all_in_border_boxes Inr r)
    show ?thesis
    proof (cases ?B)
      case True
      then show ?thesis unfolding chk border by (simp add: Inr r)
    next
      case False
      show ?thesis
      proof (cases "area [x0, y0, x1, y1]")
        case (Inl e)
        with False show ?thesis unfolding chk border half by (auto simp add: Inr r)
      next
        case a: (Inr a)
        show ?thesis
        proof (cases "py_mul a float_0_5")
          case (Inl e)
          with a False show ?thesis unfolding chk border half by (auto simp add: Inr r)
        next
          case t: (Inr t)
          from a t False show ?thesis
            unfolding chk border half
            by (auto simp add: Inr r is_sum_larger_def is_sum_larger_loop_boxes)
        qed
      qed
    qed
  qed
qed

lemma check_few_boxes:
  "ImageText d = Some texts \<Longrightarrow> length texts \<le> 1 \<Longrightarrow> fst (check (Some d) s) = Inr True"
  by (cases texts) (auto simp add: check_def)

subsection \<open>The image \<open>[0, 0, 100, 100]\<close>\<close>

lemma regions_100:
  "border_regions (PyInt 0) (PyInt 0) (PyInt 100) (PyInt 100) =
     Inr ([PyInt 0, PyFloat (Fin 5), PyInt 100, PyInt 100],
          [PyInt 0, PyInt 0, PyInt 100, PyFloat (Fin 95)])"
  by (simp add: border_regions_def py_eval round_eval)

lemma half_area_100:
  "half_area (PyInt 0, PyInt 0, PyInt 100, PyInt 100) = Inr (PyFloat (Fin 5000))"
  by (simp add: half_area_def box_area_def py_eval round_eval)

subsection \<open>Records with integer coordinates\<close>

lemma box_area_int: "box_area (int_box q) = Inr (PyInt (int_area q))"
  by (cases q) (simp add: box_area_def int_box_def int_area_def)

lemma running_sum_int:
  "running_sum (PyInt acc) (map int_box qs) = Inr (PyInt (acc + sum_list (map int_area qs)))"
  by (induction qs arbitrary: acc) (simp_all add: box_area_int add.assoc)

lemma prefix_sums_int:
  assumes "\<forall>q\<in>set qs. 0 \<le> int_area q"
  shows "(\<exists>k\<in>{1..length (map int_box qs)}. \<exists>v.
            running_sum (PyInt 0) (take k (map int_box qs)) = Inr v \<and> py_gt v t) =
         (qs \<noteq> [] \<and> py_gt (PyInt (sum_list (map int_area qs))) t)"
proof
  assume "\<exists>k\<in>{1..length (map int_box qs)}. \<exists>v.
      running_sum (PyInt 0) (take k (map int_box qs)) = Inr v \<and> py_gt v t"
  then obtain k v where k: "1 \<le> k" "k \<le> length qs"
    and v: "running_sum (PyInt 0) (take k (map int_box qs)) = Inr v" "py_gt v t"
    by auto
  from v(1) have "v = PyInt (sum_list (map int_area (take k qs)))"
    by (simp add: take_map running_sum_int)
  with v(2) have gt: "py_gt (PyInt (sum_list (map int_area (take k qs)))) t" by simp
  have "0 \<le> sum_list (map int_area (drop k qs))"
    using assms by (intro sum_list_nonneg) (auto dest: in_set_dropD)
  moreover have "sum_list (map int_area qs) =
      sum_list (map int_area (take k qs)) + sum_list (map int_area (drop k qs))"
    by (metis append_take_drop_id map_append sum_list_append)
  ultimately have "sum_list (map int_area (take k qs)) \<le> sum_list (map int_area qs)" by simp
  with gt have "py_gt (PyInt (sum_list (map int_area qs))) t" by (rule py_gt_int_mono)
  moreover from k have "qs \<noteq> []" by auto
  ultimately show "qs \<noteq> [] \<and> py_gt (PyInt (sum_list (map int_area qs))) t" by simp
next
  assume a: "qs \<noteq> [] \<and> py_gt (PyInt (sum_list (map int_area qs))) t"
  then have mem: "length qs \<in> {1..length (map int_box qs)}" by (cases qs) auto
  have "running_sum (PyInt 0) (take (length qs) (map int_box qs))
      = Inr (PyInt (sum_list (map int_area qs)))"
    by (simp add: running_sum_int)
  with a mem show "\<exists>k\<in>{1..length (map int_box qs)}. \<exists>v.
      running_sum (PyInt 0) (take k (map int_box qs)) = Inr v \<and> py_gt v t"
    by blast
qed

lemma check_int_boxes:
  assumes "\<forall>q\<in>set qs. 0 \<le> int_area q"
  shows "fst (check (Some \<lparr>ImageBB = Some [x0, y0, x1, y1],
                           ImageText = Some (map box_text (map int_box qs))\<rparr>) s) =
     (if length qs \<le> 1 then Inr True
      else
        (case border_regions x0 y0 x1 y1 of Inl e \<Rightarrow> Inl e
         | Inr (ntb, nbb) \<Rightarrow>
            (if \<not> ((\<exists>q\<in>set qs. strictly_inside (int_box q) ntb)
                    \<and> (\<exists>q\<in>set qs. strictly_inside (int_box q) nbb))
             then Inr True
             else
               (case half_area (x0, y0, x1, y1) of Inl e \<Rightarrow> Inl e
                | Inr t \<Rightarrow> Inr (py_gt (PyInt (sum_list (map int_area qs))) t)))))"
proof (cases "length qs \<le> 1")
  case True
  then show ?thesis by (simp add: check_few_boxes)
next
  case False
  then have two: "2 \<le> length (map int_box qs)" and ne: "qs \<noteq> []" by auto
  note step = check_many_boxes [OF two, of x0 y0 x1 y1 s]
  show ?thesis
    unfolding step prefix_sums_int [OF assms] using False ne
    by (simp add: running_sum_int split: sum.splits prod.splits)
qed

subsection \<open>Inputs on which the rounding decides\<close>

text \<open>
  The difference of the integer \<open>2^53\<close> and the float \<open>0.5\<close> is rounded to \<open>2^53\<close>: the
  area of \<open>[0.5, 0, 9007199254740992, 1]\<close> is \<open>9007199254740992.0\<close>.
\<close>

lemma area_is_rounded:
  "area [PyFloat (Fin (1/2)), PyInt 0, PyInt 9007199254740992, PyInt 1]
     = Inr (PyFloat (Fin 9007199254740992))"
  by (simp add: area_def item_diff_def getitem_def py_eval round_eval
      round_double_eval [where e = 52] round_double_eval [where e = 53])

text \<open>
  For an image of height 3 the border of the not-top region is \<open>3*0.05\<close>, the double
  \<open>0.15000000000000002\<close>. A box whose upper edge is that double is not strictly below the
  border: it does not set the flag \<open>top\<close>.
\<close>

lemma regions_height_3:
  "border_regions (PyInt 0) (PyInt 0) x1 (PyInt 3) =
     Inr ([PyInt 0, PyFloat (Fin (1351079888211149 / 9007199254740992)), x1, PyInt 3],
          [PyInt 0, PyInt 0, x1, PyFloat (Fin (6417629469002957 / 2251799813685248))])"
  by (simp add: border_regions_def py_eval round_eval)

lemma all_in_border_rounded_border:
  "all_in_border [PyInt 0, PyInt 0, PyInt 10, PyInt 3]
     [\<lparr>TextBB = Some [PyInt 1, PyFloat (Fin (1351079888211149 / 9007199254740992)),
                       PyInt 4, PyFloat (Fin (5/2))]\<rparr>] = Inr True"
  "all_in_border [PyInt 0, PyInt 0, PyInt 10, PyInt 3]
     [\<lparr>TextBB = Some [PyInt 1, PyFloat (Fin (1351079888211149 / 9007199254740992)),
                       PyInt 4, PyFloat (Fin (5/2))]\<rparr>,
      \<lparr>TextBB = Some [PyInt 1, PyFloat (Fin (1/16)), PyInt 9, PyFloat (Fin (1/8))]\<rparr>] = Inr True"
  by (simp_all add: all_in_border_def regions_height_3 contains_box py_eval)

text \<open>An integer beyond the range of a double cannot be converted: \<open>h*0.05\<close> raises.\<close>

lemma to_float_overflow: "to_float (10 ^ 400) = Inl OverflowError"
  by (simp add: to_float_def round_double_eval [where e = 1328] round_half_even_def Let_def
      floor_rat_numeral)

lemma border_regions_overflow:
  "border_regions (PyInt 0) (PyInt 0) x1 (PyInt (10 ^ 400)) = Inl OverflowError"
  using to_float_overflow
  by (simp add: border_regions_def float_op_def as_float_def float_0_05_value)

lemma all_in_border_overflow:
  "all_in_border [PyInt 0, PyInt 0, PyInt 1, PyInt (10 ^ 400)] [] = Inl OverflowError"
  using border_regions_overflow [of "PyInt 1"] by (simp add: all_in_border_def)

text \<open>
  The area of the image \<open>[0, 0, 4, 9007199254740993]\<close> is the integer \<open>2^55 + 4\<close>;
  \<open>a*0.5\<close> converts it to the double \<open>2^55\<close>, so the threshold is \<open>2^54\<close>, and two
  integer boxes of total area \<open>2^54 + 2\<close>, exactly half the area of the image, exceed it.
\<close>

lemma half_area_is_rounded:
  "half_area (PyInt 0, PyInt 0, PyInt 4, PyInt 9007199254740993)
     = Inr (PyFloat (Fin 18014398509481984))"
  by (simp add: half_area_def box_area_def py_eval round_eval)

lemma check_rounded_threshold:
  "check (Some \<lparr>ImageBB = Some [PyInt 0, PyInt 0, PyInt 4, PyInt 9007199254740993],
       ImageText = Some (map box_text
         [int_box (1, 1000000000000000, 3, 5503599627370496),
          int_box (1, 1000000000000000, 3, 5503599627370497)])\<rparr>)
     \<lparr>debug_enabled = True, emitted = []\<rparr>
   = (Inr True, \<lparr>debug_enabled = True, emitted = [''Almost everything is text'']\<rparr>)"
proof -
  let ?qs = "[int_box (1, 1000000000000000, 3, 5503599627370496),
              int_box (1, 1000000000000000, 3, 5503599627370497)]"
  have regions: "border_regions (PyInt 0) (PyInt 0) (PyInt 4) (PyInt 9007199254740993) =
      Inr ([PyInt 0, PyFloat (Fin (3602879701896397 / 8)), PyInt 4, PyInt 9007199254740993],
           [PyInt 0, PyInt 0, PyInt 4, PyFloat (Fin 8556839292003942)])"
    by (simp add: border_regions_def py_eval round_eval
        round_double_eval [where e = 48] round_double_eval [where e = 52]
        round_double_eval [where e = 53])
  have border: "all_in_border [PyInt 0, PyInt 0, PyInt 4, PyInt 9007199254740993]
      (map box_text ?qs) = Inr False"
    using all_in_border_boxes [of "PyInt 0" "PyInt 0" "PyInt 4" "PyInt 9007199254740993" ?qs]
    by (simp add: regions strictly_inside_def int_box_def py_eval)
  have area: "area [PyInt 0, PyInt 0, PyInt 4, PyInt 9007199254740993]
      = Inr (PyInt 36028797018963972)"
    by (simp add: area_box box_area_def)
  have thr: "py_mul (PyInt 36028797018963972) float_0_5 = Inr (PyFloat (Fin 18014398509481984))"
    by (simp add: py_eval round_eval)
  have larger: "is_sum_larger (PyFloat (Fin 18014398509481984)) (map box_text ?qs) = Inr True"
    by (simp add: is_sum_larger_def TextBB_box_text area_box box_area_def int_box_def py_eval)
  from border area thr larger show ?thesis
    by (simp add: check_def logging_debug_def)
qed

subsection \<open>The matcher on the pattern\<close>





























subsection \<open>The claims\<close>

text \<open>
  The claim C1 says that \<open>check\<close> returns a verdict for every well-formed record. With
  an image whose height is the integer \<open>10^400\<close>, \<open>h*0.05\<close> has to convert \<open>h\<close> to a
  float, which raises \<open>OverflowError\<close>: \<open>check\<close> raises while it evaluates rule 3.
\<close>

theorem check_overflow_counterexample:
  "check (Some \<lparr>ImageBB = Some [PyInt 0, PyInt 0, PyInt 1, PyInt (10 ^ 400)],
                  ImageText = Some [box_text (PyInt 0, PyInt 1, PyInt 1, PyInt 2),
                                    box_text (PyInt 0, PyInt 3, PyInt 1, PyInt 4)]\<rparr>)
     \<lparr>debug_enabled = False, emitted = []\<rparr>
   = (Inl OverflowError, \<lparr>debug_enabled = False, emitted = []\<rparr>)"
  using border_regions_overflow [of "PyInt 1"] by (simp add: check_def all_in_border_def)

text \<open>
  C1 (amended). For every well-formed record, \<open>check\<close> evaluates four rules in this
  order and returns bad (\<open>True\<close>) on the first match, good (\<open>False\<close>) otherwise: (1) no
  text box; (2) exactly one text box; (3) \<open>all_in_border(ImageBB, texts)\<close> holds; (4)
  the running sum of the areas of the text boxes, accumulated in their given order,
  at some point strictly exceeds \<open>area(ImageBB) * 0.5\<close>, all in Python's arithmetic.
  When rule 3 or rule 4 has to convert an integer that is beyond the range of a double,
  \<open>check\<close> raises \<open>OverflowError\<close> instead. The diagnostic that is logged names the rule
  that matched.
\<close>

theorem check_rule_order:
  "check (Some \<lparr>ImageBB = Some [x0, y0, x1, y1], ImageText = Some (map box_text qs)\<rparr>) s =
     (if length qs = 0 then (Inr True, logging_debug ''No text'' s)
      else if length qs = 1 then (Inr True, logging_debug ''One text label'' s)
      else
        (case all_in_border [x0, y0, x1, y1] (map box_text qs) of
           Inl e \<Rightarrow> (Inl e, s)
         | Inr in_border \<Rightarrow>
            (if in_border
             then (Inr True, logging_debug ''All text is in upper or lower border'' s)
             else
               (case half_area (x0, y0, x1, y1) of
                  Inl e \<Rightarrow> (Inl e, s)
                | Inr max_area \<Rightarrow>
                   (if (\<exists>k\<in>{1..length qs}. \<exists>v.
                          running_sum (PyInt 0) (take k qs) = Inr v \<and> py_gt v max_area)
                    then (Inr True, logging_debug ''Almost everything is text'' s)
                    else
                      (case running_sum (PyInt 0) qs of
                         Inl e \<Rightarrow> (Inl e, s)
                       | Inr v \<Rightarrow> (Inr False, s)))))))"
proof (cases "length qs = 0 \<or> length qs = 1")
  case True
  then show ?thesis by (cases qs) (auto simp add: check_def)
next
  case False
  then have len: "length qs \<noteq> 0" "length qs \<noteq> 1" by auto
  have half: "half_area (x0, y0, x1, y1) =
      (case area [x0, y0, x1, y1] of Inl e \<Rightarrow> Inl e | Inr a \<Rightarrow> py_mul a float_0_5)"
    by (simp add: half_area_def area_box)
  show ?thesis
  proof (cases "all_in_border [x0, y0, x1, y1] (map box_text qs)")
    case (Inl e)
    with len show ?thesis by (simp add: check_def)
  next
    case border: (Inr in_border)
    show ?thesis
    proof (cases in_border)
      case True
      with border len show ?thesis by (simp add: check_def)
    next
      case no_border: False
      show ?thesis
      proof (cases "area [x0, y0, x1, y1]")
        case (Inl e)
        with border no_border len show ?thesis unfolding half by (simp add: check_def)
      next
        case a: (Inr a)
        show ?thesis
        proof (cases "py_mul a float_0_5")
          case (Inl e)
          with a border no_border len show ?thesis unfolding half by (simp add: check_def)
        next
          case (Inr max_area)
          with a border no_border len show ?thesis
            unfolding half
            by (simp add: check_def is_sum_larger_def is_sum_larger_loop_boxes
                split: sum.splits)
        qed
      qed
    qed
  qed
qed

theorem check_rule_order_witness:
  "(1::nat) \<in> {1..length [int_box (10, 10, 90, 90), int_box (20, 20, 30, 30)]}
   \<and> running_sum (PyInt 0) (take 1 [int_box (10, 10, 90, 90), int_box (20, 20, 30, 30)])
       = Inr (PyInt 6400)
   \<and> py_gt (PyInt 6400) (PyFloat (Fin 5000))
   \<and> check (Some \<lparr>ImageBB = Some [PyInt 0, PyInt 0, PyInt 100, PyInt 100],
                     ImageText = Some (map box_text
                       [int_box (10, 10, 90, 90), int_box (20, 20, 30, 30)])\<rparr>)
        \<lparr>debug_enabled = True, emitted = []\<rparr> =
       (Inr True, \<lparr>debug_enabled = True, emitted = [''Almost everything is text'']\<rparr>)"
proof -
  let ?qs = "[int_box (10, 10, 90, 90), int_box (20, 20, 30, 30)]"
  have border: "all_in_border [PyInt 0, PyInt 0, PyInt 100, PyInt 100] (map box_text ?qs)
      = Inr False"
    using all_in_border_boxes [of "PyInt 0" "PyInt 0" "PyInt 100" "PyInt 100" ?qs]
    by (simp add: regions_100 strictly_inside_def int_box_def py_eval)
  have sum1: "running_sum (PyInt 0) (take 1 ?qs) = Inr (PyInt 6400)"
    by (simp add: int_box_def box_area_def)
  have gt: "py_gt (PyInt 6400) (PyFloat (Fin 5000))"
    by (simp add: py_eval)
  have mem: "(1::nat) \<in> {1..length ?qs}" by simp
  from sum1 gt have larger: "\<exists>k\<in>{1..length ?qs}. \<exists>v.
      running_sum (PyInt 0) (take k ?qs) = Inr v \<and> py_gt v (PyFloat (Fin 5000))"
    by (intro bexI [OF _ mem] exI [of _ "PyInt 6400"] conjI)
  have "check (Some \<lparr>ImageBB = Some [PyInt 0, PyInt 0, PyInt 100, PyInt 100],
                       ImageText = Some (map box_text ?qs)\<rparr>)
          \<lparr>debug_enabled = True, emitted = []\<rparr> =
        (Inr True, \<lparr>debug_enabled = True, emitted = [''Almost everything is text'']\<rparr>)"
    using check_rule_order [of "PyInt 0" "PyInt 0" "PyInt 100" "PyInt 100" ?qs
        "\<lparr>debug_enabled = True, emitted = []\<rparr>"]
    unfolding border half_area_100 using larger by (simp add: logging_debug_def)
  with mem sum1 gt show ?thesis by (intro conjI)
qed

text \<open>
  The claim C2 says that a record with a missing \<open>ImageBB\<close> key is never mapped to a
  verdict. A record with no text box and no \<open>ImageBB\<close> is classified bad: \<open>check\<close>
  returns before it reads \<open>ImageBB\<close>.
\<close>

theorem check_missing_ImageBB_counterexample:
  "fst (check (Some \<lparr>ImageBB = None, ImageText = Some []\<rparr>)
         \<lparr>debug_enabled = False, emitted = []\<rparr>) = Inr True"
  by (simp add: check_def)

text \<open>
  C2 (amended). Invalid JSON syntax raises \<open>ValueError\<close>, a missing \<open>ImageText\<close> key
  raises \<open>KeyError\<close>, and a missing \<open>ImageBB\<close> key raises \<open>KeyError\<close> when the record has
  at least two text boxes; none of these yields a verdict. A record with at most one
  text box and no \<open>ImageBB\<close> is classified bad.
\<close>

theorem check_malformed:
  "fst (check None s) = Inl ValueError
   \<and> (ImageText d = None \<longrightarrow> fst (check (Some d) s) = Inl (KeyError ''ImageText''))
   \<and> (ImageText d = Some texts \<and> 2 \<le> length texts \<and> ImageBB d = None \<longrightarrow>
        fst (check (Some d) s) = Inl (KeyError ''ImageBB''))
   \<and> (ImageText d = Some texts \<and> length texts \<le> 1 \<and> ImageBB d = None \<longrightarrow>
        fst (check (Some d) s) = Inr True)"
  by (cases texts) (auto simp add: check_def)

theorem check_malformed_witness:
  "ImageText \<lparr>ImageBB = Some [PyInt 0, PyInt 0, PyInt 1, PyInt 1], ImageText = None\<rparr> = None
   \<and> fst (check (Some \<lparr>ImageBB = Some [PyInt 0, PyInt 0, PyInt 1, PyInt 1], ImageText = None\<rparr>)
            \<lparr>debug_enabled = False, emitted = []\<rparr>) = Inl (KeyError ''ImageText'')
   \<and> ImageText \<lparr>ImageBB = None,
                 ImageText = Some [box_text (int_box (1, 1, 2, 2)), box_text (int_box (3, 3, 4, 4))]\<rparr>
       = Some [box_text (int_box (1, 1, 2, 2)), box_text (int_box (3, 3, 4, 4))]
   \<and> 2 \<le> length [box_text (int_box (1, 1, 2, 2)), box_text (int_box (3, 3, 4, 4))]
   \<and> ImageBB \<lparr>ImageBB = None,
               ImageText = Some [box_text (int_box (1, 1, 2, 2)), box_text (int_box (3, 3, 4, 4))]\<rparr>
       = None
   \<and> fst (check (Some \<lparr>ImageBB = None,
                          ImageText = Some [box_text (int_box (1, 1, 2, 2)),
                                            box_text (int_box (3, 3, 4, 4))]\<rparr>)
            \<lparr>debug_enabled = False, emitted = []\<rparr>) = Inl (KeyError ''ImageBB'')
   \<and> ImageText \<lparr>ImageBB = None, ImageText = Some [box_text (int_box (1, 1, 2, 2))]\<rparr>
       = Some [box_text (int_box (1, 1, 2, 2))]
   \<and> length [box_text (int_box (1, 1, 2, 2))] \<le> 1
   \<and> ImageBB \<lparr>ImageBB = None, ImageText = Some [box_text (int_box (1, 1, 2, 2))]\<rparr> = None
   \<and> fst (check (Some \<lparr>ImageBB = None, ImageText = Some [box_text (int_box (1, 1, 2, 2))]\<rparr>)
            \<lparr>debug_enabled = False, emitted = []\<rparr>) = Inr True"
  using check_malformed [of "\<lparr>debug_enabled = False, emitted = []\<rparr>"
      "\<lparr>ImageBB = Some [PyInt 0, PyInt 0, PyInt 1, PyInt 1], ImageText = None\<rparr>" "[]"]
    check_malformed [of "\<lparr>debug_enabled = False, emitted = []\<rparr>"
      "\<lparr>ImageBB = None,
         ImageText = Some [box_text (int_box (1, 1, 2, 2)), box_text (int_box (3, 3, 4, 4))]\<rparr>"
      "[box_text (int_box (1, 1, 2, 2)), box_text (int_box (3, 3, 4, 4))]"]
    check_malformed [of "\<lparr>debug_enabled = False, emitted = []\<rparr>"
      "\<lparr>ImageBB = None, ImageText = Some [box_text (int_box (1, 1, 2, 2))]\<rparr>"
      "[box_text (int_box (1, 1, 2, 2))]"]
  by simp

text \<open>
  The claim C3 says that \<open>all_in_border\<close> is true on every list of zero or one text
  boxes. One box in the middle of the image is contained in both shrunk regions, sets
  both flags, and the function returns false after examining a single box.
\<close>

theorem all_in_border_one_box_counterexample:
  "all_in_border [PyInt 0, PyInt 0, PyInt 100, PyInt 100]
     [\<lparr>TextBB = Some [PyInt 10, PyInt 10, PyInt 20, PyInt 20]\<rparr>] = Inr False"
  by (simp add: all_in_border_def regions_100 contains_box py_eval)

text \<open>
  C3 (amended). \<open>all_in_border\<close> raises \<open>OverflowError\<close> when computing the two regions
  does. Otherwise it returns true on the empty text list; on a list of one text box it
  returns false exactly when that box is strictly inside both regions, the
  not-top-border and the not-bottom-border region as Python's arithmetic gives them,
  and true otherwise.
\<close>

theorem all_in_border_short_lists:
  "all_in_border [x0, y0, x1, y1] [] =
     (case border_regions x0 y0 x1 y1 of Inl e \<Rightarrow> Inl e | Inr r \<Rightarrow> Inr True)
   \<and> all_in_border [x0, y0, x1, y1] [\<lparr>TextBB = Some [a0, a1, a2, a3]\<rparr>] =
       (case border_regions x0 y0 x1 y1 of Inl e \<Rightarrow> Inl e
        | Inr (ntb, nbb) \<Rightarrow>
            Inr (\<not> (strictly_inside (a0, a1, a2, a3) ntb \<and> strictly_inside (a0, a1, a2, a3) nbb)))"
proof -
  have "map box_text [] = []" "map box_text [(a0, a1, a2, a3)] = [\<lparr>TextBB = Some [a0, a1, a2, a3]\<rparr>]"
    by (simp_all add: box_text_def)
  then show ?thesis
    using all_in_border_boxes [of x0 y0 x1 y1 "[]"]
      all_in_border_boxes [of x0 y0 x1 y1 "[(a0, a1, a2, a3)]"]
    by (simp split: sum.splits prod.splits)
qed

text \<open>
  The claim C4 says that every permutation of the text boxes gives the same verdict.
  First, the area of a box with \<open>x1 < x0\<close> is negative, so a running sum can exceed the
  threshold after the first box and fall below it after the second. Second, a sum of
  floats is rounded: with an image of area \<open>15 * 2^52\<close>, a box \<open>A\<close> of area \<open>15 * 2^51\<close>, the
  threshold, and two boxes \<open>B\<close> of area \<open>1.5\<close>, the sum \<open>A + B + B\<close> stays at the threshold
  (doubles are 4 apart there) and \<open>B + B + A\<close> is rounded up to the next double. In both
  cases one order is bad and the other is good.
\<close>

theorem check_permutation_counterexample:
  "mset [box_text (int_box (90, 10, 10, 90)), box_text (int_box (10, 10, 90, 90))]
     = mset [box_text (int_box (10, 10, 90, 90)), box_text (int_box (90, 10, 10, 90))]
   \<and> fst (check (Some \<lparr>ImageBB = Some [PyInt 0, PyInt 0, PyInt 100, PyInt 100],
                          ImageText = Some [box_text (int_box (10, 10, 90, 90)),
                                            box_text (int_box (90, 10, 10, 90))]\<rparr>)
             \<lparr>debug_enabled = False, emitted = []\<rparr>) = Inr True
   \<and> fst (check (Some \<lparr>ImageBB = Some [PyInt 0, PyInt 0, PyInt 100, PyInt 100],
                          ImageText = Some [box_text (int_box (90, 10, 10, 90)),
                                            box_text (int_box (10, 10, 90, 90))]\<rparr>)
             \<lparr>debug_enabled = False, emitted = []\<rparr>) = Inr False
   \<and> box_area (int_box (1, 3, 1125899906842625, 33)) = Inr (PyInt 33776997205278720)
   \<and> box_area (PyFloat (Fin 1), PyFloat (Fin 3), PyFloat (Fin (5/2)), PyFloat (Fin 4))
       = Inr (PyFloat (Fin (3/2)))
   \<and> mset [box_text (PyFloat (Fin 1), PyFloat (Fin 3), PyFloat (Fin (5/2)), PyFloat (Fin 4)),
            box_text (PyFloat (Fin 1), PyFloat (Fin 3), PyFloat (Fin (5/2)), PyFloat (Fin 4)),
            box_text (int_box (1, 3, 1125899906842625, 33))]
     = mset [box_text (int_box (1, 3, 1125899906842625, 33)),
             box_text (PyFloat (Fin 1), PyFloat (Fin 3), PyFloat (Fin (5/2)), PyFloat (Fin 4)),
             box_text (PyFloat (Fin 1), PyFloat (Fin 3), PyFloat (Fin (5/2)), PyFloat (Fin 4))]
   \<and> fst (check (Some \<lparr>ImageBB = Some [PyInt 0, PyInt 0, PyInt 1688849860263936, PyInt 40],
                          ImageText = Some
                            [box_text (int_box (1, 3, 1125899906842625, 33)),
                             box_text (PyFloat (Fin 1), PyFloat (Fin 3), PyFloat (Fin (5/2)), PyFloat (Fin 4)),
                             box_text (PyFloat (Fin 1), PyFloat (Fin 3), PyFloat (Fin (5/2)), PyFloat (Fin 4))]\<rparr>)
             \<lparr>debug_enabled = False, emitted = []\<rparr>) = Inr False
   \<and> fst (check (Some \<lparr>ImageBB = Some [PyInt 0, PyInt 0, PyInt 1688849860263936, PyInt 40],
                          ImageText = Some
                            [box_text (PyFloat (Fin 1), PyFloat (Fin 3), PyFloat (Fin (5/2)), PyFloat (Fin 4)),
                             box_text (PyFloat (Fin 1), PyFloat (Fin 3), PyFloat (Fin (5/2)), PyFloat (Fin 4)),
                             box_text (int_box (1, 3, 1125899906842625, 33))]\<rparr>)
             \<lparr>debug_enabled = False, emitted = []\<rparr>) = Inr True"
proof -
  let ?s = "\<lparr>debug_enabled = False, emitted = []\<rparr>"
  let ?B = "(PyFloat (Fin 1), PyFloat (Fin 3), PyFloat (Fin (5/2)), PyFloat (Fin 4))"
  let ?A = "int_box (1, 3, 1125899906842625, 33)"
  have regions: "border_regions (PyInt 0) (PyInt 0) (PyInt 1688849860263936) (PyInt 40) =
      Inr ([PyInt 0, PyFloat (Fin 2), PyInt 1688849860263936, PyInt 40],
           [PyInt 0, PyInt 0, PyInt 1688849860263936, PyFloat (Fin 38)])"
    by (simp add: border_regions_def py_eval round_eval)
  have half: "half_area (PyInt 0, PyInt 0, PyInt 1688849860263936, PyInt 40) =
      Inr (PyFloat (Fin 33776997205278720))"
    by (simp add: half_area_def box_area_def py_eval round_eval)
  have areaA: "box_area ?A = Inr (PyInt 33776997205278720)"
    by (simp add: box_area_int int_area_def)
  have areaB: "box_area ?B = Inr (PyFloat (Fin (3/2)))"
    by (simp add: box_area_def py_eval round_eval)
  have sumsB: "running_sum (PyInt 0) [?B, ?B, ?A] = Inr (PyFloat (Fin 33776997205278724))"
    by (simp add: areaA areaB py_eval round_eval)
  have insideA: "strictly_inside ?A [PyInt 0, PyFloat (Fin 2), PyInt 1688849860263936, PyInt 40]"
    "strictly_inside ?A [PyInt 0, PyInt 0, PyInt 1688849860263936, PyFloat (Fin 38)]"
    by (simp_all add: strictly_inside_def int_box_def py_eval)
  have neg1: "fst (check (Some \<lparr>ImageBB = Some [PyInt 0, PyInt 0, PyInt 100, PyInt 100],
      ImageText = Some (map box_text [int_box (10, 10, 90, 90), int_box (90, 10, 10, 90)])\<rparr>) ?s)
      = Inr True"
  proof -
    let ?qs = "[int_box (10, 10, 90, 90), int_box (90, 10, 10, 90)]"
    have two: "2 \<le> length ?qs" by simp
    have ks: "{1..length ?qs} = {1, 2}" by auto
    note step = check_many_boxes [OF two, of "PyInt 0" "PyInt 0" "PyInt 100" "PyInt 100" ?s]
    show ?thesis
      unfolding step regions_100 half_area_100 ks
      by (simp add: strictly_inside_def int_box_def box_area_def py_eval)
  qed
  have neg2: "fst (check (Some \<lparr>ImageBB = Some [PyInt 0, PyInt 0, PyInt 100, PyInt 100],
      ImageText = Some (map box_text [int_box (90, 10, 10, 90), int_box (10, 10, 90, 90)])\<rparr>) ?s)
      = Inr False"
  proof -
    let ?qs = "[int_box (90, 10, 10, 90), int_box (10, 10, 90, 90)]"
    have two: "2 \<le> length ?qs" by simp
    have ks: "{1..length ?qs} = {1, 2}" by auto
    have t2: "take 2 ?qs = ?qs" by simp
    note step = check_many_boxes [OF two, of "PyInt 0" "PyInt 0" "PyInt 100" "PyInt 100" ?s]
    show ?thesis
      unfolding step regions_100 half_area_100 ks
      by (simp add: t2 strictly_inside_def int_box_def box_area_def py_eval)
  qed
  have fl1: "fst (check (Some \<lparr>ImageBB = Some [PyInt 0, PyInt 0, PyInt 1688849860263936, PyInt 40],
      ImageText = Some (map box_text [?A, ?B, ?B])\<rparr>) ?s) = Inr False"
  proof -
    have two: "2 \<le> length [?A, ?B, ?B]" by simp
    have ks: "{1..length [?A, ?B, ?B]} = {1, 2, 3}" by auto
    note step = check_many_boxes [OF two,
        of "PyInt 0" "PyInt 0" "PyInt 1688849860263936" "PyInt 40" ?s]
    show ?thesis
      unfolding step regions half ks
      using insideA
      by (simp add: areaA areaB py_eval round_eval)
  qed
  have fl2: "fst (check (Some \<lparr>ImageBB = Some [PyInt 0, PyInt 0, PyInt 1688849860263936, PyInt 40],
      ImageText = Some (map box_text [?B, ?B, ?A])\<rparr>) ?s) = Inr True"
  proof -
    have mem: "(3::nat) \<in> {1..length [?B, ?B, ?A]}" by simp
    have "running_sum (PyInt 0) (take 3 [?B, ?B, ?A]) = Inr (PyFloat (Fin 33776997205278724))"
      using sumsB by simp
    moreover have "py_gt (PyFloat (Fin 33776997205278724)) (PyFloat (Fin 33776997205278720))"
      by (simp add: py_gt_def exact_def)
    ultimately have "\<exists>k\<in>{1..length [?B, ?B, ?A]}. \<exists>v.
        running_sum (PyInt 0) (take k [?B, ?B, ?A]) = Inr v
        \<and> py_gt v (PyFloat (Fin 33776997205278720))"
      using mem by blast
    moreover have two: "2 \<le> length [?B, ?B, ?A]" by simp
    note step = check_many_boxes [OF two,
        of "PyInt 0" "PyInt 0" "PyInt 1688849860263936" "PyInt 40" ?s]
    ultimately show ?thesis
      unfolding step regions half
      using insideA by simp
  qed
  from neg1 neg2 fl1 fl2 areaA areaB show ?thesis by simp
qed

text \<open>
  C4 (amended). For every record whose text boxes have integer coordinates and a
  non-negative area, and every permutation of its \<open>ImageText\<close> sequence, \<open>check\<close> has the
  same outcome, the same verdict or the same error.
\<close>

theorem check_permutation_int_nonneg:
  assumes nonneg: "\<forall>q\<in>set qs. 0 \<le> int_area q"
    and perm: "mset qs' = mset qs"
  shows "fst (check (Some \<lparr>ImageBB = Some [x0, y0, x1, y1],
                            ImageText = Some (map box_text (map int_box qs'))\<rparr>) s) =
         fst (check (Some \<lparr>ImageBB = Some [x0, y0, x1, y1],
                            ImageText = Some (map box_text (map int_box qs))\<rparr>) s)"
proof -
  from perm have set_eq: "set qs' = set qs" by (rule mset_eq_setD)
  from perm have len_eq: "length qs' = length qs" by (rule mset_eq_length)
  have "sum_mset (image_mset int_area (mset qs')) = sum_mset (image_mset int_area (mset qs))"
    using perm by simp
  then have sum_eq: "sum_list (map int_area qs') = sum_list (map int_area qs)"
    by (simp only: sum_mset_sum_list [symmetric] mset_map)
  from nonneg set_eq have nonneg': "\<forall>q\<in>set qs'. 0 \<le> int_area q" by simp
  show ?thesis
    unfolding check_int_boxes [OF nonneg] check_int_boxes [OF nonneg']
    by (simp only: set_eq len_eq sum_eq)
qed

theorem check_permutation_int_nonneg_witness:
  "0 \<le> int_area (10, 10, 90, 90) \<and> 0 \<le> int_area (20, 20, 30, 30)
   \<and> mset [(20, 20, 30, 30), (10, 10, 90, 90 :: int)] = mset [(10, 10, 90, 90), (20, 20, 30, 30)]
   \<and> fst (check (Some \<lparr>ImageBB = Some [PyInt 0, PyInt 0, PyInt 100, PyInt 100],
                          ImageText = Some (map box_text
                            (map int_box [(20, 20, 30, 30), (10, 10, 90, 90)]))\<rparr>)
             \<lparr>debug_enabled = False, emitted = []\<rparr>) =
     fst (check (Some \<lparr>ImageBB = Some [PyInt 0, PyInt 0, PyInt 100, PyInt 100],
                          ImageText = Some (map box_text
                            (map int_box [(10, 10, 90, 90), (20, 20, 30, 30)]))\<rparr>)
             \<lparr>debug_enabled = False, emitted = []\<rparr>)"
proof -
  have a: "\<forall>q\<in>set [(10, 10, 90, 90), (20, 20, 30, 30 :: int)]. 0 \<le> int_area q"
    by (simp add: int_area_def)
  have b: "mset [(20, 20, 30, 30), (10, 10, 90, 90 :: int)] = mset [(10, 10, 90, 90), (20, 20, 30, 30)]"
    by simp
  from a have c: "0 \<le> int_area (10, 10, 90, 90) \<and> 0 \<le> int_area (20, 20, 30, 30)" by simp
  from c b check_permutation_int_nonneg [OF a b, of "PyInt 0" "PyInt 0" "PyInt 100" "PyInt 100"
      "\<lparr>debug_enabled = False, emitted = []\<rparr>"]
  show ?thesis by (intro conjI) simp_all
qed

text \<open>
  C5. For every record whose \<open>ImageText\<close> list has zero or one element, \<open>check\<close> returns
  bad, whatever \<open>ImageBB\<close> holds and whether or not it is present.
\<close>

theorem check_few_texts:
  "ImageText d = Some texts \<Longrightarrow> length texts \<le> 1 \<Longrightarrow> fst (check (Some d) s) = Inr True"
  by (cases texts) (auto simp add: check_def)

theorem check_few_texts_witness:
  "ImageText \<lparr>ImageBB = None, ImageText = Some [\<lparr>TextBB = Some [PyInt 1, PyInt 2, PyInt 3, PyInt 4]\<rparr>]\<rparr>
     = Some [\<lparr>TextBB = Some [PyInt 1, PyInt 2, PyInt 3, PyInt 4]\<rparr>]
   \<and> length [\<lparr>TextBB = Some [PyInt 1, PyInt 2, PyInt 3, PyInt 4]\<rparr>] \<le> 1
   \<and> fst (check (Some \<lparr>ImageBB = None,
                          ImageText = Some [\<lparr>TextBB = Some [PyInt 1, PyInt 2, PyInt 3, PyInt 4]\<rparr>]\<rparr>)
             \<lparr>debug_enabled = False, emitted = []\<rparr>) = Inr True"
  using check_few_texts [of
      "\<lparr>ImageBB = None, ImageText = Some [\<lparr>TextBB = Some [PyInt 1, PyInt 2, PyInt 3, PyInt 4]\<rparr>]\<rparr>"
      "[\<lparr>TextBB = Some [PyInt 1, PyInt 2, PyInt 3, PyInt 4]\<rparr>]"
      "\<lparr>debug_enabled = False, emitted = []\<rparr>"]
  by simp

text \<open>
  The claim C6 says that a record of two boxes, one strictly inside both shrunk regions
  and one in the top 5 percent strip, whose total text area does not exceed half the
  area of the image, is good. It fails whether its hypotheses are read in exact
  arithmetic or in Python's.

  In exact arithmetic: for an image of height 3 the border of the not-top region is at
  \<open>0.15\<close>, but \<open>3*0.05\<close> is the double \<open>0.15000000000000002\<close>. A box whose upper edge is at
  that double is strictly below \<open>0.15\<close> and not strictly below the border that
  \<open>all_in_border\<close> computes: no box sets the flag \<open>top\<close>, and the record is bad by the
  border rule, in both orders.

  In Python's arithmetic: the image \<open>[0, 0, 8, 2500000000000001]\<close> has the threshold
  \<open>10000000000000004.0\<close>. The middle box has the integer area \<open>10000000000000005\<close>, the
  box in the strip the area \<open>0.25\<close>, and their sum is the double \<open>10000000000000004.0\<close>
  in either order, which does not exceed the threshold. With the middle box first, the
  running sum after one box is the integer \<open>10000000000000005\<close>, which does: the record
  is bad.
\<close>

theorem check_middle_and_top_counterexample:
  "round_double (15000000000000002 / 10 ^ 17) = Fin (1351079888211149 / 9007199254740992)
   \<and> values_of (PyInt 0, PyInt 0, PyInt 100, PyInt 3) = Some (0, 0, 100, 3)
   \<and> values_of (PyInt 10, PyFloat (Fin (1351079888211149 / 9007199254740992)), PyInt 20, PyInt 2)
       = Some (10, 1351079888211149 / 9007199254740992, 20, 2)
   \<and> values_of (PyInt 10, PyFloat (Fin (1/16)), PyInt 30, PyFloat (Fin (1/8)))
       = Some (10, 1/16, 30, 1/8)
   \<and> exactly_inside (10, 1351079888211149 / 9007199254740992, 20, 2)
        (exact_not_top (0, 0, 100, 3))
   \<and> exactly_inside (10, 1351079888211149 / 9007199254740992, 20, 2)
        (exact_not_bottom (0, 0, 100, 3))
   \<and> in_top_strip (10, 1/16, 30, 1/8) (0, 0, 100, 3)
   \<and> exact_area (10, 1351079888211149 / 9007199254740992, 20, 2)
        + exact_area (10, 1/16, 30, 1/8) \<le> exact_area (0, 0, 100, 3) * (5 / 10)
   \<and> fst (check (Some \<lparr>ImageBB = Some [PyInt 0, PyInt 0, PyInt 100, PyInt 3],
        ImageText = Some
          [box_text (PyInt 10, PyFloat (Fin (1351079888211149 / 9007199254740992)), PyInt 20, PyInt 2),
           box_text (PyInt 10, PyFloat (Fin (1/16)), PyInt 30, PyFloat (Fin (1/8)))]\<rparr>)
        \<lparr>debug_enabled = False, emitted = []\<rparr>) = Inr True
   \<and> fst (check (Some \<lparr>ImageBB = Some [PyInt 0, PyInt 0, PyInt 100, PyInt 3],
        ImageText = Some
          [box_text (PyInt 10, PyFloat (Fin (1/16)), PyInt 30, PyFloat (Fin (1/8))),
           box_text (PyInt 10, PyFloat (Fin (1351079888211149 / 9007199254740992)), PyInt 20, PyInt 2)]\<rparr>)
        \<lparr>debug_enabled = False, emitted = []\<rparr>) = Inr True
   \<and> border_regions (PyInt 0) (PyInt 0) (PyInt 8) (PyInt 2500000000000001) =
        Inr ([PyInt 0, PyFloat (Fin (2000000000000001 / 16)), PyInt 8, PyInt 2500000000000001],
             [PyInt 0, PyInt 0, PyInt 8, PyFloat (Fin 2375000000000001)])
   \<and> strictly_inside (int_box (1, 200000000000000, 6, 2200000000000001))
        [PyInt 0, PyFloat (Fin (2000000000000001 / 16)), PyInt 8, PyInt 2500000000000001]
   \<and> strictly_inside (int_box (1, 200000000000000, 6, 2200000000000001))
        [PyInt 0, PyInt 0, PyInt 8, PyFloat (Fin 2375000000000001)]
   \<and> values_of (PyFloat (Fin 1), PyFloat (Fin 1), PyFloat (Fin (3/2)), PyFloat (Fin (3/2)))
        = Some (1, 1, 3/2, 3/2)
   \<and> in_top_strip (1, 1, 3/2, 3/2) (0, 0, 8, 2500000000000001)
   \<and> half_area (PyInt 0, PyInt 0, PyInt 8, PyInt 2500000000000001)
        = Inr (PyFloat (Fin 10000000000000004))
   \<and> running_sum (PyInt 0)
        [int_box (1, 200000000000000, 6, 2200000000000001),
         (PyFloat (Fin 1), PyFloat (Fin 1), PyFloat (Fin (3/2)), PyFloat (Fin (3/2)))]
        = Inr (PyFloat (Fin 10000000000000004))
   \<and> running_sum (PyInt 0)
        [(PyFloat (Fin 1), PyFloat (Fin 1), PyFloat (Fin (3/2)), PyFloat (Fin (3/2))),
         int_box (1, 200000000000000, 6, 2200000000000001)]
        = Inr (PyFloat (Fin 10000000000000004))
   \<and> py_gt (PyFloat (Fin 10000000000000004)) (PyFloat (Fin 10000000000000004)) = False
   \<and> fst (check (Some \<lparr>ImageBB = Some [PyInt 0, PyInt 0, PyInt 8, PyInt 2500000000000001],
        ImageText = Some
          [box_text (int_box (1, 200000000000000, 6, 2200000000000001)),
           box_text (PyFloat (Fin 1), PyFloat (Fin 1), PyFloat (Fin (3/2)), PyFloat (Fin (3/2)))]\<rparr>)
        \<lparr>debug_enabled = False, emitted = []\<rparr>) = Inr True"
proof -
  let ?s = "\<lparr>debug_enabled = False, emitted = []\<rparr>"
  let ?M = "(PyInt 10, PyFloat (Fin (1351079888211149 / 9007199254740992)), PyInt 20, PyInt 2)"
  let ?T = "(PyInt 10, PyFloat (Fin (1/16)), PyInt 30, PyFloat (Fin (1/8)))"
  let ?M2 = "int_box (1, 200000000000000, 6, 2200000000000001)"
  let ?T2 = "(PyFloat (Fin 1), PyFloat (Fin 1), PyFloat (Fin (3/2)), PyFloat (Fin (3/2)))"
  have lit: "round_double (15000000000000002 / 10 ^ 17)
      = Fin (1351079888211149 / 9007199254740992)"
    by (simp add: round_eval)
  have no_top: "\<not> strictly_inside ?M
      [PyInt 0, PyFloat (Fin (1351079888211149 / 9007199254740992)), PyInt 100, PyInt 3]"
    "\<not> strictly_inside ?T
      [PyInt 0, PyFloat (Fin (1351079888211149 / 9007199254740992)), PyInt 100, PyInt 3]"
    by (simp_all add: strictly_inside_def py_eval)
  have two: "2 \<le> length [?M, ?T]" "2 \<le> length [?T, ?M]" "2 \<le> length [?M2, ?T2]"
    by simp_all
  have c1: "fst (check (Some \<lparr>ImageBB = Some [PyInt 0, PyInt 0, PyInt 100, PyInt 3],
      ImageText = Some (map box_text [?M, ?T])\<rparr>) ?s) = Inr True"
    unfolding check_many_boxes [OF two(1)] regions_height_3 using no_top by simp
  have c2: "fst (check (Some \<lparr>ImageBB = Some [PyInt 0, PyInt 0, PyInt 100, PyInt 3],
      ImageText = Some (map box_text [?T, ?M])\<rparr>) ?s) = Inr True"
    unfolding check_many_boxes [OF two(2)] regions_height_3 using no_top by simp
  have geo: "exactly_inside (10, 1351079888211149 / 9007199254740992, 20, 2)
        (exact_not_top (0, 0, 100, 3))"
    "exactly_inside (10, 1351079888211149 / 9007199254740992, 20, 2)
        (exact_not_bottom (0, 0, 100, 3))"
    "in_top_strip (10, 1/16, 30, 1/8) (0, 0, 100, 3)"
    "exact_area (10, 1351079888211149 / 9007199254740992, 20, 2)
        + exact_area (10, 1/16, 30, 1/8) \<le> exact_area (0, 0, 100, 3) * (5 / 10)"
    "in_top_strip (1, 1, 3/2, 3/2) (0, 0, 8, 2500000000000001)"
    by (simp_all add: exactly_inside_def exact_not_top_def exact_not_bottom_def in_top_strip_def
        exact_area_def)
  have vals: "values_of (PyInt 0, PyInt 0, PyInt 100, PyInt 3) = Some (0, 0, 100, 3)"
    "values_of ?M = Some (10, 1351079888211149 / 9007199254740992, 20, 2)"
    "values_of ?T = Some (10, 1/16, 30, 1/8)"
    "values_of ?T2 = Some (1, 1, 3/2, 3/2)"
    by (simp_all add: values_of_def value_of_def)
  have regions: "border_regions (PyInt 0) (PyInt 0) (PyInt 8) (PyInt 2500000000000001) =
      Inr ([PyInt 0, PyFloat (Fin (2000000000000001 / 16)), PyInt 8, PyInt 2500000000000001],
           [PyInt 0, PyInt 0, PyInt 8, PyFloat (Fin 2375000000000001)])"
    by (simp add: border_regions_def py_eval round_eval
        round_double_eval [where e = 46] round_double_eval [where e = 51])
  have inside: "strictly_inside ?M2
      [PyInt 0, PyFloat (Fin (2000000000000001 / 16)), PyInt 8, PyInt 2500000000000001]"
    "strictly_inside ?M2 [PyInt 0, PyInt 0, PyInt 8, PyFloat (Fin 2375000000000001)]"
    by (simp_all add: strictly_inside_def int_box_def py_eval)
  have half: "half_area (PyInt 0, PyInt 0, PyInt 8, PyInt 2500000000000001)
      = Inr (PyFloat (Fin 10000000000000004))"
    by (simp add: half_area_def box_area_def py_eval round_eval
        round_double_eval [where e = 53])
  have areas: "box_area ?M2 = Inr (PyInt 10000000000000005)"
    "box_area ?T2 = Inr (PyFloat (Fin (1/4)))"
    by (simp_all add: box_area_def int_box_def py_eval round_eval
        round_double_eval [where e = "- 2"])
  have sums: "running_sum (PyInt 0) [?M2, ?T2] = Inr (PyFloat (Fin 10000000000000004))"
    "running_sum (PyInt 0) [?T2, ?M2] = Inr (PyFloat (Fin 10000000000000004))"
    by (simp_all add: areas py_eval round_eval round_double_eval [where e = 53]
        round_double_eval [where e = "- 2"])
  have no_gt: "py_gt (PyFloat (Fin 10000000000000004)) (PyFloat (Fin 10000000000000004)) = False"
    by (simp add: py_gt_irrefl)
  have c3: "fst (check (Some \<lparr>ImageBB = Some [PyInt 0, PyInt 0, PyInt 8, PyInt 2500000000000001],
      ImageText = Some (map box_text [?M2, ?T2])\<rparr>) ?s) = Inr True"
  proof -
    have mem: "(1::nat) \<in> {1..length [?M2, ?T2]}" by simp
    have "running_sum (PyInt 0) (take 1 [?M2, ?T2]) = Inr (PyInt 10000000000000005)"
      by (simp add: areas)
    moreover have "py_gt (PyInt 10000000000000005) (PyFloat (Fin 10000000000000004))"
      by (simp add: py_eval)
    ultimately have "\<exists>k\<in>{1..length [?M2, ?T2]}. \<exists>v.
        running_sum (PyInt 0) (take k [?M2, ?T2]) = Inr v
        \<and> py_gt v (PyFloat (Fin 10000000000000004))"
      using mem by blast
    then show ?thesis
      unfolding check_many_boxes [OF two(3)] regions half using inside by simp
  qed
  from lit vals geo c1 c2 regions inside half sums no_gt c3 show ?thesis by simp
qed

text \<open>
  C6 (amended). For every record with exactly two text boxes, one of them strictly
  inside both the not-top-border and the not-bottom-border region as \<open>all_in_border\<close>
  computes them, whose area rule passes (neither the area of the first box nor the sum
  of both areas, in Python's arithmetic, exceeds \<open>area(ImageBB) * 0.5\<close>), \<open>check\<close> returns
  good, in either order of the two boxes and wherever the other box lies, also in the
  top 5 percent strip.
\<close>

theorem check_middle_and_top_good:
  assumes regions: "border_regions x0 y0 x1 y1 = Inr (ntb, nbb)"
    and mid_top: "strictly_inside m ntb"
    and mid_bottom: "strictly_inside m nbb"
    and order: "qs = [m, t] \<or> qs = [t, m]"
    and max_area: "half_area (x0, y0, x1, y1) = Inr max_area"
    and first: "running_sum (PyInt 0) (take 1 qs) = Inr v1" "\<not> py_gt v1 max_area"
    and both: "running_sum (PyInt 0) qs = Inr v2" "\<not> py_gt v2 max_area"
  shows "fst (check (Some \<lparr>ImageBB = Some [x0, y0, x1, y1],
                            ImageText = Some (map box_text qs)\<rparr>) s) = Inr False"
proof -
  have len: "length qs = 2" and mem: "m \<in> set qs"
    using order by auto
  then have two: "2 \<le> length qs" by simp
  have border: "(\<exists>q\<in>set qs. strictly_inside q ntb) \<and> (\<exists>q\<in>set qs. strictly_inside q nbb)"
    using mem mid_top mid_bottom by blast
  have ks: "{1..length qs} = {1, 2}" using len by auto
  have take2: "take 2 qs = qs" using len by simp
  have sums: "\<not> (\<exists>k\<in>{1..length qs}. \<exists>v.
      running_sum (PyInt 0) (take k qs) = Inr v \<and> py_gt v max_area)"
    unfolding ks using first both by (simp add: take2)
  show ?thesis
    unfolding check_many_boxes [OF two] using border sums both(1)
    by (simp add: regions max_area)
qed

theorem check_middle_and_top_good_witness:
  "border_regions (PyInt 0) (PyInt 0) (PyInt 100) (PyInt 100) =
     Inr ([PyInt 0, PyFloat (Fin 5), PyInt 100, PyInt 100],
          [PyInt 0, PyInt 0, PyInt 100, PyFloat (Fin 95)])
   \<and> strictly_inside (int_box (40, 40, 60, 60)) [PyInt 0, PyFloat (Fin 5), PyInt 100, PyInt 100]
   \<and> strictly_inside (int_box (40, 40, 60, 60)) [PyInt 0, PyInt 0, PyInt 100, PyFloat (Fin 95)]
   \<and> half_area (PyInt 0, PyInt 0, PyInt 100, PyInt 100) = Inr (PyFloat (Fin 5000))
   \<and> running_sum (PyInt 0) (take 1 [int_box (40, 40, 60, 60), int_box (10, 1, 30, 4)])
       = Inr (PyInt 400)
   \<and> \<not> py_gt (PyInt 400) (PyFloat (Fin 5000))
   \<and> running_sum (PyInt 0) [int_box (40, 40, 60, 60), int_box (10, 1, 30, 4)] = Inr (PyInt 460)
   \<and> \<not> py_gt (PyInt 460) (PyFloat (Fin 5000))
   \<and> fst (check (Some \<lparr>ImageBB = Some [PyInt 0, PyInt 0, PyInt 100, PyInt 100],
                          ImageText = Some (map box_text
                            [int_box (40, 40, 60, 60), int_box (10, 1, 30, 4)])\<rparr>)
             \<lparr>debug_enabled = False, emitted = []\<rparr>) = Inr False"
proof -
  let ?qs = "[int_box (40, 40, 60, 60), int_box (10, 1, 30, 4)]"
  have a: "strictly_inside (int_box (40, 40, 60, 60))
      [PyInt 0, PyFloat (Fin 5), PyInt 100, PyInt 100]"
    by (simp add: strictly_inside_def int_box_def py_eval)
  have b: "strictly_inside (int_box (40, 40, 60, 60))
      [PyInt 0, PyInt 0, PyInt 100, PyFloat (Fin 95)]"
    by (simp add: strictly_inside_def int_box_def py_eval)
  have o: "?qs = [int_box (40, 40, 60, 60), int_box (10, 1, 30, 4)]
      \<or> ?qs = [int_box (10, 1, 30, 4), int_box (40, 40, 60, 60)]" by simp
  have s1: "running_sum (PyInt 0) (take 1 ?qs) = Inr (PyInt 400)"
    by (simp add: box_area_int int_area_def)
  have g1: "\<not> py_gt (PyInt 400) (PyFloat (Fin 5000))" by (simp add: py_eval)
  have s2: "running_sum (PyInt 0) ?qs = Inr (PyInt 460)"
    by (simp add: box_area_int int_area_def)
  have g2: "\<not> py_gt (PyInt 460) (PyFloat (Fin 5000))" by (simp add: py_eval)
  note good = check_middle_and_top_good [OF regions_100 a b o half_area_100 s1 g1 s2 g2,
      of "\<lparr>debug_enabled = False, emitted = []\<rparr>"]
  from regions_100 a b half_area_100 s1 g1 s2 g2 good show ?thesis by (intro conjI)
qed





text \<open>
  C9. For all boxes \<open>a\<close> and \<open>b\<close>, \<open>contains(a, b)\<close> returns true if and only if
  \<open>a.x0 > b.x0\<close>, \<open>a.x1 < b.x1\<close>, \<open>a.y0 > b.y0\<close> and \<open>a.y1 < b.y1\<close>. A box with an
  edge equal to the corresponding edge of \<open>b\<close> is not contained in \<open>b\<close>. The comparisons
  are Python's; on finite numbers they compare the values.
\<close>

theorem contains_iff_strict:
  "(contains [ax0, ay0, ax1, ay1] [bx0, by0, bx1, by1] = Inr True) =
     (py_gt ax0 bx0 \<and> py_lt ax1 bx1 \<and> py_gt ay0 by0 \<and> py_lt ay1 by1)
   \<and> (contains [ax0, ay0, ax1, ay1] [bx0, by0, bx1, by1] = Inr False) =
     (\<not> (py_gt ax0 bx0 \<and> py_lt ax1 bx1 \<and> py_gt ay0 by0 \<and> py_lt ay1 by1))
   \<and> contains [bx0, ay0, ax1, ay1] [bx0, by0, bx1, by1] = Inr False
   \<and> contains [ax0, by0, ax1, ay1] [bx0, by0, bx1, by1] = Inr False
   \<and> contains [ax0, ay0, bx1, ay1] [bx0, by0, bx1, by1] = Inr False
   \<and> contains [ax0, ay0, ax1, by1] [bx0, by0, bx1, by1] = Inr False
   \<and> py_gt (PyInt i) (PyInt j) = (i > j) \<and> py_lt (PyInt i) (PyInt j) = (i < j)
   \<and> py_gt (PyFloat (Fin p)) (PyFloat (Fin q)) = (p > q)
   \<and> py_lt (PyFloat (Fin p)) (PyFloat (Fin q)) = (p < q)
   \<and> py_gt (PyInt i) (PyFloat (Fin q)) = (of_int i > q)
   \<and> py_lt (PyInt i) (PyFloat (Fin q)) = (of_int i < q)
   \<and> py_gt (PyFloat (Fin p)) (PyInt j) = (p > of_int j)
   \<and> py_lt (PyFloat (Fin p)) (PyInt j) = (p < of_int j)"
  by (auto simp add: contains_box py_gt_irrefl py_lt_irrefl py_gt_def py_lt_def exact_def)

text \<open>
  C10. \<open>check\<close> is deterministic and has no hidden state: the verdict does not depend
  on the logger, the only state \<open>check\<close> touches, and a second call on the same input,
  run in the state the first call left, returns the same verdict.
\<close>

theorem check_deterministic:
  "fst (check loaded s) = fst (check loaded s')
   \<and> fst (check loaded (snd (check loaded s))) = fst (check loaded s)"
  by (simp add: check_def split: option.splits sum.splits)

end
